theory Spec2Isabelle
  imports Main "HOL-Library.AList"
begin

section \<open>Values, heap and runtime of the embedded JavaScript\<close>

text \<open>
  The repository is one asynchronous function, \<^verbatim>\<open>kv_bulk_get\<close> in
  \<^verbatim>\<open>src/js/kv_bulk.js\<close>. Its arguments are dynamically typed, so they are
  modelled as JavaScript values: the primitives, function values, and references to
  mutable objects that live in an explicit heap. Numbers are the integer-valued ones
  and NaN; symbols, bigints and non-integral numbers are outside the model, and so are
  getters, proxies and own properties of functions.
\<close>

type_synonym addr = nat

datatype fn =
    Map_prototype_get  \<comment> \<open>the built-in method every Map inherits\<close>
  | Host_fn nat        \<comment> \<open>any other function, named by a number\<close>

datatype jsval =
    JUndefined
  | JNull
  | JBool bool
  | JNum int
  | JNaN
  | JStr string
  | JFun fn
  | JRef addr

text \<open>
  Heap objects: a plain object with its properties in creation order (inherited
  methods of a class instance are listed with the own ones; the engine's reordering
  of integer-like keys on enumeration is not modelled), an array, and a Map with its
  entries in insertion order. The heap is the list of all objects allocated so far; an
  address is an index into it, and allocation appends. Objects that nothing can reach
  once the call is over, or that only the callee receives (the Error thrown, the
  literal \<^verbatim>\<open>{type}\<close>, the pairs a Map iteration yields) are values of their own
  types and take no address.
\<close>

datatype heap_obj =
    HObject "(string \<times> jsval) list"
  | HArray "jsval list"
  | HMap "(jsval \<times> jsval) list"

type_synonym heap = "heap_obj list"

text \<open>
  What a \<^verbatim>\<open>throw\<close> or a rejected promise carries: \<^verbatim>\<open>new Error(msg)\<close>, a
  TypeError raised by the language itself (its message is engine-specific), or any
  other value.
\<close>

datatype thrown = Error string | TypeError | Thrown jsval

text \<open>
  How the promise of an asynchronous call ends. A \<^verbatim>\<open>throw\<close> inside an
  \<^verbatim>\<open>async\<close> function rejects its promise. \<open>Pending\<close> is a promise that never
  settles.
\<close>

datatype outcome = Fulfilled jsval | Rejected thrown | Pending

text \<open>The object literal \<^verbatim>\<open>{type}\<close> handed to the store.\<close>

record options =
  type :: jsval

text \<open>One invocation of a member of the store handle, as the callee sees it.\<close>

record call =
  member_name :: string
  callee :: fn
  this_arg :: jsval
  keys_arg :: jsval
  options_arg :: options

text \<open>
  Everything the function does not define itself is a parameter:
  \<^item> \<open>invoke f h this keys opts\<close> is what \<^verbatim>\<open>await f.call(this, keys, opts)\<close> does
    in heap \<open>h\<close>: how the awaited promise ends (a synchronous throw of the callee
    counts as a rejection) and the heap the callee leaves; the built-in
    \<open>Map_prototype_get\<close> is a callee like any other;
  \<^item> \<open>to_property_key h v\<close> is the language's conversion of a value that is not a
    string to a property key (for an object it runs the object's own
    \<^verbatim>\<open>toString\<close>, which may throw).
\<close>

record runtime =
  invoke :: "fn \<Rightarrow> heap \<Rightarrow> jsval \<Rightarrow> jsval \<Rightarrow> options \<Rightarrow> outcome \<times> heap"
  to_property_key :: "heap \<Rightarrow> jsval \<Rightarrow> thrown + string"

text \<open>
  What a caller of \<^verbatim>\<open>kv_bulk_get\<close> can observe: how the returned promise ends,
  the heap afterwards, and the store members invoked, in order.
\<close>

record result =
  outcome :: outcome
  heap_after :: heap
  calls :: "call list"

section \<open>Language primitives the function uses\<close>

text \<open>
  Reading the object at an address. JavaScript has no dangling reference; the
  \<open>else\<close> branch only makes the function total.
\<close>

definition obj_at :: "heap \<Rightarrow> addr \<Rightarrow> heap_obj" where
  "obj_at h a = (if a < length h then h ! a else HObject [])"

text \<open>\<^verbatim>\<open>!v\<close> is \<open>\<not> truthy v\<close>.\<close>

fun truthy :: "jsval \<Rightarrow> bool" where
  "truthy JUndefined = False"
| "truthy JNull = False"
| "truthy (JBool b) = b"
| "truthy (JNum n) = (n \<noteq> 0)"
| "truthy JNaN = False"
| "truthy (JStr s) = (s \<noteq> [])"
| "truthy (JFun f) = True"
| "truthy (JRef a) = True"

fun typeof :: "jsval \<Rightarrow> string" where
  "typeof JUndefined = ''undefined''"
| "typeof JNull = ''object''"
| "typeof (JBool b) = ''boolean''"
| "typeof (JNum n) = ''number''"
| "typeof JNaN = ''number''"
| "typeof (JStr s) = ''string''"
| "typeof (JFun f) = ''function''"
| "typeof (JRef a) = ''object''"

text \<open>
  \<^verbatim>\<open>v.name\<close> for a method name (not an array index or \<^verbatim>\<open>length\<close>): reading a
  property of \<^verbatim>\<open>undefined\<close> or \<^verbatim>\<open>null\<close> throws a TypeError, a primitive or an
  array has no such method, a plain object has what its property list says, and a Map
  has the built-in \<^verbatim>\<open>get\<close>.
\<close>

definition GetV :: "heap \<Rightarrow> jsval \<Rightarrow> string \<Rightarrow> thrown + jsval" where
  "GetV h v name =
     (case v of
        JUndefined \<Rightarrow> Inl TypeError
      | JNull \<Rightarrow> Inl TypeError
      | JRef a \<Rightarrow>
          (case obj_at h a of
             HObject ps \<Rightarrow> (case map_of ps name of Some x \<Rightarrow> Inr x | None \<Rightarrow> Inr JUndefined)
           | HArray xs \<Rightarrow> Inr JUndefined
           | HMap es \<Rightarrow> Inr (if name = ''get'' then JFun Map_prototype_get else JUndefined))
      | _ \<Rightarrow> Inr JUndefined)"

definition Array_isArray :: "heap \<Rightarrow> jsval \<Rightarrow> bool" where
  "Array_isArray h v =
     (case v of
        JRef a \<Rightarrow> (case obj_at h a of HArray xs \<Rightarrow> True | _ \<Rightarrow> False)
      | _ \<Rightarrow> False)"

text \<open>A parameter default \<^verbatim>\<open>p = d\<close> applies when the argument is \<^verbatim>\<open>undefined\<close>
  (or omitted, which is the same).\<close>

definition default_param :: "jsval \<Rightarrow> jsval \<Rightarrow> jsval" where
  "default_param arg d = (if arg = JUndefined then d else arg)"

subsection \<open>\<^verbatim>\<open>Object.fromEntries\<close>\<close>

definition is_object :: "jsval \<Rightarrow> bool" where
  "is_object v = (case v of JRef a \<Rightarrow> True | JFun f \<Rightarrow> True | _ \<Rightarrow> False)"

text \<open>\<^verbatim>\<open>item[0]\<close> and \<^verbatim>\<open>item[1]\<close> of an object \<open>item\<close>.\<close>

definition entry_part :: "heap \<Rightarrow> jsval \<Rightarrow> nat \<Rightarrow> jsval" where
  "entry_part h item i =
     (case item of
        JRef a \<Rightarrow>
          (case obj_at h a of
             HArray xs \<Rightarrow> (if i < length xs then xs ! i else JUndefined)
           | HObject ps \<Rightarrow>
               (case map_of ps (if i = 0 then ''0'' else ''1'') of
                  Some x \<Rightarrow> x | None \<Rightarrow> JUndefined)
           | HMap es \<Rightarrow> JUndefined)
      | _ \<Rightarrow> JUndefined)"

text \<open>An item the iteration yields is an entry only if it is an object.\<close>

definition entry_of :: "heap \<Rightarrow> jsval \<Rightarrow> thrown + jsval \<times> jsval" where
  "entry_of h item =
     (if is_object item then Inr (entry_part h item 0, entry_part h item 1)
      else Inl TypeError)"

text \<open>
  The items \<^verbatim>\<open>Object.fromEntries\<close> sees when it iterates its argument, or the
  TypeError of an argument that cannot be iterated. A Map yields its entries, an
  array its elements, a string its characters (which are not objects); nothing else
  in the model is iterable.
\<close>

definition iterate :: "heap \<Rightarrow> jsval \<Rightarrow> thrown + (thrown + jsval \<times> jsval) list" where
  "iterate h v =
     (case v of
        JStr s \<Rightarrow> Inr (map (\<lambda>c. Inl TypeError) s)
      | JRef a \<Rightarrow>
          (case obj_at h a of
             HObject ps \<Rightarrow> Inl TypeError
           | HArray xs \<Rightarrow> Inr (map (entry_of h) xs)
           | HMap es \<Rightarrow> Inr (map Inr es))
      | _ \<Rightarrow> Inl TypeError)"

definition ToPropertyKey :: "runtime \<Rightarrow> heap \<Rightarrow> jsval \<Rightarrow> thrown + string" where
  "ToPropertyKey rt h k = (case k of JStr s \<Rightarrow> Inr s | _ \<Rightarrow> to_property_key rt h k)"

text \<open>
  The items are taken in order; the first that is no entry, or whose key cannot be
  converted, ends the iteration with its error. Defining a property that exists
  replaces its value, otherwise the property is appended (\<open>AList.update\<close>).
\<close>

fun add_entries ::
  "runtime \<Rightarrow> heap \<Rightarrow> (thrown + jsval \<times> jsval) list \<Rightarrow> (string \<times> jsval) list
     \<Rightarrow> thrown + (string \<times> jsval) list" where
  "add_entries rt h [] ps = Inr ps"
| "add_entries rt h (Inl e # items) ps = Inl e"
| "add_entries rt h (Inr (k, v) # items) ps =
     (case ToPropertyKey rt h k of
        Inl e \<Rightarrow> Inl e
      | Inr s \<Rightarrow> add_entries rt h items (AList.update s v ps))"

text \<open>
  On success the new object is allocated at the next free address. On failure nothing
  reachable was allocated and the heap is returned as it was.
\<close>

definition Object_fromEntries :: "runtime \<Rightarrow> heap \<Rightarrow> jsval \<Rightarrow> (thrown + jsval) \<times> heap" where
  "Object_fromEntries rt h v =
     (case iterate h v of
        Inl e \<Rightarrow> (Inl e, h)
      | Inr items \<Rightarrow>
          (case add_entries rt h items [] of
             Inl e \<Rightarrow> (Inl e, h)
           | Inr ps \<Rightarrow> (Inr (JRef (length h)), h @ [HObject ps])))"

section \<open>The function\<close>

text \<open>
  The source, without its comments:
  \<^verbatim>\<open>
  export async function kv_bulk_get(kv, keys, type = "text", withMetadata = false) {
    if (!kv || typeof kv.get !== "function") throw new Error("KV namespace not valid");
    if (!Array.isArray(keys)) throw new Error("keys must be an array of strings");
    if (withMetadata) {
      const map = await kv.getWithMetadata(keys, {type});
      return Object.fromEntries(map);
    } else {
      const map = await kv.get(keys, {type});
      return Object.fromEntries(map);
    }
  }
  \<close>
\<close>

text \<open>
  \<^verbatim>\<open>await obj.name(keys, opts)\<close>: the member is read, and a member that is not a
  function makes the call expression throw a TypeError before anything is invoked.
\<close>

definition call_member ::
  "runtime \<Rightarrow> heap \<Rightarrow> jsval \<Rightarrow> string \<Rightarrow> jsval \<Rightarrow> options \<Rightarrow> outcome \<times> heap \<times> call list" where
  "call_member rt h obj name keys opts =
     (case GetV h obj name of
        Inl e \<Rightarrow> (Rejected e, h, [])
      | Inr (JFun f) \<Rightarrow>
          (case invoke rt f h obj keys opts of
             (out, h') \<Rightarrow>
               (out, h',
                [\<lparr>member_name = name, callee = f, this_arg = obj, keys_arg = keys,
                  options_arg = opts\<rparr>]))
      | Inr _ \<Rightarrow> (Rejected TypeError, h, []))"

text \<open>\<^verbatim>\<open>const map = await ...; return Object.fromEntries(map);\<close>\<close>

definition return_fromEntries :: "runtime \<Rightarrow> outcome \<times> heap \<times> call list \<Rightarrow> result" where
  "return_fromEntries rt awaited =
     (case awaited of
        (Fulfilled m, h1, cs) \<Rightarrow>
          (case Object_fromEntries rt h1 m of
             (Inl e, h2) \<Rightarrow> \<lparr>outcome = Rejected e, heap_after = h2, calls = cs\<rparr>
           | (Inr obj, h2) \<Rightarrow> \<lparr>outcome = Fulfilled obj, heap_after = h2, calls = cs\<rparr>)
      | (Rejected e, h1, cs) \<Rightarrow> \<lparr>outcome = Rejected e, heap_after = h1, calls = cs\<rparr>
      | (Pending, h1, cs) \<Rightarrow> \<lparr>outcome = Pending, heap_after = h1, calls = cs\<rparr>)"

definition throw :: "heap \<Rightarrow> thrown \<Rightarrow> result" where
  "throw h e = \<lparr>outcome = Rejected e, heap_after = h, calls = []\<rparr>"

definition kv_bulk_get ::
  "runtime \<Rightarrow> heap \<Rightarrow> jsval \<Rightarrow> jsval \<Rightarrow> jsval \<Rightarrow> jsval \<Rightarrow> result" where
  "kv_bulk_get rt h kv keys type_arg withMetadata_arg =
     (let ty = default_param type_arg (JStr ''text'');
          withMetadata = default_param withMetadata_arg (JBool False)
      in
        if \<not> truthy kv then throw h (Error ''KV namespace not valid'')
        else case GetV h kv ''get'' of
          Inl e \<Rightarrow> throw h e
        | Inr g \<Rightarrow>
            if typeof g \<noteq> ''function'' then throw h (Error ''KV namespace not valid'')
            else if \<not> Array_isArray h keys then
              throw h (Error ''keys must be an array of strings'')
            else if truthy withMetadata then
              return_fromEntries rt
                (call_member rt h kv ''getWithMetadata'' keys \<lparr>type = ty\<rparr>)
            else
              return_fromEntries rt (call_member rt h kv ''get'' keys \<lparr>type = ty\<rparr>))"

text \<open>The spec's names for the two errors the function raises itself.\<close>

definition InvalidStoreHandle :: thrown where
  "InvalidStoreHandle = Error ''KV namespace not valid''"

definition InvalidKeyList :: thrown where
  "InvalidKeyList = Error ''keys must be an array of strings''"

section \<open>Replaying the store calls\<close>

text \<open>
  The heap that the logged store calls leave when they run, in order, from heap \<open>h\<close>:
  the effect of the store alone, against which the effect of \<^verbatim>\<open>kv_bulk_get\<close> is
  measured.
\<close>

definition heap_after_calls :: "runtime \<Rightarrow> heap \<Rightarrow> call list \<Rightarrow> heap" where
  "heap_after_calls rt h cs =
     foldl (\<lambda>h' c. snd (invoke rt (callee c) h' (this_arg c) (keys_arg c) (options_arg c)))
       h cs"

section \<open>An example store\<close>

text \<open>
  The scenario of the spec: a store holding \<^verbatim>\<open>a\<close> and \<^verbatim>\<open>b\<close>, asked for
  \<^verbatim>\<open>a\<close>, \<^verbatim>\<open>b\<close> and \<^verbatim>\<open>c\<close>. Function 0 is its value-only bulk read (one entry
  per requested key, \<^verbatim>\<open>null\<close> for a key it does not hold), function 1 its read with
  metadata, function 2 a read that fails, and any other function never answers.
\<close>

definition demo_data :: "(jsval \<times> jsval) list" where
  "demo_data = [(JStr ''a'', JStr ''1''), (JStr ''b'', JStr ''2'')]"

definition demo_elements :: "heap \<Rightarrow> jsval \<Rightarrow> jsval list" where
  "demo_elements h keys =
     (case keys of
        JRef a \<Rightarrow> (case obj_at h a of HArray xs \<Rightarrow> xs | _ \<Rightarrow> [])
      | _ \<Rightarrow> [])"

definition demo_invoke :: "fn \<Rightarrow> heap \<Rightarrow> jsval \<Rightarrow> jsval \<Rightarrow> options \<Rightarrow> outcome \<times> heap" where
  "demo_invoke f h this keys opts =
     (if f = Host_fn 0 then
        (Fulfilled (JRef (length h)),
         h @ [HMap (map (\<lambda>k. (k, case map_of demo_data k of Some v \<Rightarrow> v | None \<Rightarrow> JNull))
                      (remdups (demo_elements h keys)))])
      else if f = Host_fn 1 then
        (Fulfilled (JRef (length h + 2)),
         h @ [HObject [(''value'', JStr ''1''), (''metadata'', JStr ''M_a'')],
              HObject [(''value'', JStr ''2''), (''metadata'', JStr ''M_b'')],
              HMap [(JStr ''a'', JRef (length h)), (JStr ''b'', JRef (length h + 1)),
                    (JStr ''c'', JNull)]])
      else if f = Host_fn 2 then (Rejected (Error ''quota exceeded''), h)
      else (Pending, h))"

definition demo_to_property_key :: "heap \<Rightarrow> jsval \<Rightarrow> thrown + string" where
  "demo_to_property_key h v =
     (case v of
        JUndefined \<Rightarrow> Inr ''undefined''
      | JNull \<Rightarrow> Inr ''null''
      | JBool b \<Rightarrow> Inr (if b then ''true'' else ''false'')
      | JNaN \<Rightarrow> Inr ''NaN''
      | _ \<Rightarrow> Inl TypeError)"

definition demo_rt :: runtime where
  "demo_rt = \<lparr>invoke = demo_invoke, to_property_key = demo_to_property_key\<rparr>"

text \<open>
  The example heap. Address 0: the store handle with both reads. 1: the keys
  \<^verbatim>\<open>["a", "b", "c"]\<close>. 2: a handle with the value-only read alone. 3: a handle with
  the read with metadata alone. 4: an empty array. 5: a handle whose reads fail.
  6: the array \<^verbatim>\<open>["a", null]\<close>.
\<close>

definition demo_heap :: heap where
  "demo_heap =
     [HObject [(''get'', JFun (Host_fn 0)), (''getWithMetadata'', JFun (Host_fn 1))],
      HArray [JStr ''a'', JStr ''b'', JStr ''c''],
      HObject [(''get'', JFun (Host_fn 0))],
      HObject [(''getWithMetadata'', JFun (Host_fn 1))],
      HArray [],
      HObject [(''get'', JFun (Host_fn 2)), (''getWithMetadata'', JFun (Host_fn 2))],
      HArray [JStr ''a'', JNull]]"

section \<open>Basic facts\<close>

lemma typeof_function_iff: "typeof g = ''function'' \<longleftrightarrow> (\<exists>f. g = JFun f)"
  by (cases g) simp_all

lemma GetV_truthy: "truthy v \<Longrightarrow> \<exists>x. GetV h v name = Inr x"
  by (cases v) (auto simp: GetV_def split: heap_obj.splits option.splits)

lemma GetV_fun_truthy: "GetV h v name = Inr (JFun f) \<Longrightarrow> truthy v"
  by (cases v) (auto simp: GetV_def)

lemma truthy_default_param: "truthy (default_param wm (JBool False)) = truthy wm"
  by (simp add: default_param_def)

lemma kv_bulk_get_valid:
  assumes "GetV h kv ''get'' = Inr (JFun g)" and "Array_isArray h keys"
  shows "kv_bulk_get rt h kv keys ty wm =
           return_fromEntries rt
             (call_member rt h kv (if truthy wm then ''getWithMetadata'' else ''get'') keys
                \<lparr>type = default_param ty (JStr ''text'')\<rparr>)"
  using assms GetV_fun_truthy [OF assms(1)]
  by (simp add: kv_bulk_get_def Let_def truthy_default_param)

lemma call_member_fun:
  assumes "GetV h obj name = Inr (JFun f)" and "invoke rt f h obj keys opts = (out, h1)"
  shows "call_member rt h obj name keys opts =
           (out, h1,
            [\<lparr>member_name = name, callee = f, this_arg = obj, keys_arg = keys,
              options_arg = opts\<rparr>])"
  using assms by (simp add: call_member_def)

lemma call_member_not_fun:
  assumes "truthy obj" and "\<forall>f. GetV h obj name \<noteq> Inr (JFun f)"
  shows "call_member rt h obj name keys opts = (Rejected TypeError, h, [])"
proof -
  obtain x where x: "GetV h obj name = Inr x"
    using GetV_truthy [OF assms(1)] by blast
  with assms(2) have "\<forall>f. x \<noteq> JFun f" by simp
  with x show ?thesis
    by (cases x) (simp_all add: call_member_def)
qed

lemma kv_bulk_get_shape:
  "(\<exists>e. kv_bulk_get rt h kv keys ty wm = \<lparr>outcome = Rejected e, heap_after = h, calls = []\<rparr>)
   \<or> (\<exists>f out h1.
         GetV h kv (if truthy wm then ''getWithMetadata'' else ''get'') = Inr (JFun f)
         \<and> invoke rt f h kv keys \<lparr>type = default_param ty (JStr ''text'')\<rparr> = (out, h1)
         \<and> kv_bulk_get rt h kv keys ty wm =
             return_fromEntries rt
               (out, h1,
                [\<lparr>member_name = (if truthy wm then ''getWithMetadata'' else ''get''),
                  callee = f, this_arg = kv, keys_arg = keys,
                  options_arg = \<lparr>type = default_param ty (JStr ''text'')\<rparr>\<rparr>]))"
proof (cases "truthy kv \<and> (\<exists>g. GetV h kv ''get'' = Inr (JFun g)) \<and> Array_isArray h keys")
  case False
  then consider "\<not> truthy kv \<or> (\<forall>g. GetV h kv ''get'' \<noteq> Inr (JFun g))"
    | "\<not> Array_isArray h keys" by blast
  then show ?thesis
  proof cases
    case 1
    then show ?thesis
      by (cases "truthy kv")
        (auto simp: kv_bulk_get_def throw_def typeof_function_iff
              dest: GetV_truthy [of kv h "''get''"] split: sum.splits)
  next
    case 2
    then show ?thesis
      by (auto simp: kv_bulk_get_def throw_def Let_def split: sum.splits)
  qed
next
  case True
  then obtain g where g: "GetV h kv ''get'' = Inr (JFun g)" and arr: "Array_isArray h keys"
    and tk: "truthy kv" by blast
  let ?sel = "if truthy wm then ''getWithMetadata'' else ''get''"
  let ?opts = "\<lparr>type = default_param ty (JStr ''text'')\<rparr>"
  have r: "kv_bulk_get rt h kv keys ty wm =
             return_fromEntries rt (call_member rt h kv ?sel keys ?opts)"
    by (rule kv_bulk_get_valid [OF g arr])
  show ?thesis
  proof (cases "\<exists>f. GetV h kv ?sel = Inr (JFun f)")
    case True
    then obtain f where f: "GetV h kv ?sel = Inr (JFun f)" by blast
    obtain out h1 where i: "invoke rt f h kv keys ?opts = (out, h1)"
      by (cases "invoke rt f h kv keys ?opts")
    from call_member_fun [OF f i] r f i show ?thesis by auto
  next
    case False
    then have "call_member rt h kv ?sel keys ?opts = (Rejected TypeError, h, [])"
      using call_member_not_fun [OF tk] by blast
    with r show ?thesis by (simp add: return_fromEntries_def)
  qed
qed

lemma Object_fromEntries_shape:
  "(\<exists>e. Object_fromEntries rt h v = (Inl e, h))
   \<or> (\<exists>ps. Object_fromEntries rt h v = (Inr (JRef (length h)), h @ [HObject ps]))"
  by (simp add: Object_fromEntries_def split: sum.splits)

lemma return_fromEntries_shape:
  "calls (return_fromEntries rt (out, h1, cs)) = cs
   \<and> (((\<forall>v. outcome (return_fromEntries rt (out, h1, cs)) \<noteq> Fulfilled v)
         \<and> heap_after (return_fromEntries rt (out, h1, cs)) = h1)
       \<or> (\<exists>ps. outcome (return_fromEntries rt (out, h1, cs)) = Fulfilled (JRef (length h1))
              \<and> heap_after (return_fromEntries rt (out, h1, cs)) = h1 @ [HObject ps]))"
proof (cases out)
  case (Fulfilled m)
  with Object_fromEntries_shape [of rt h1 m] show ?thesis
    by (auto simp: return_fromEntries_def)
qed (simp_all add: return_fromEntries_def)

lemma add_entries_string_keys:
  assumes "\<forall>k \<in> fst ` set es. typeof k = ''string''" and "distinct (map fst es)"
  shows "\<exists>ps'. add_entries rt h (map Inr es) ps = Inr ps'
           \<and> fst ` set ps' = fst ` set ps \<union> {s. JStr s \<in> fst ` set es}
           \<and> (\<forall>s. map_of ps' s =
                 (case map_of es (JStr s) of Some v \<Rightarrow> Some v | None \<Rightarrow> map_of ps s))"
  using assms
proof (induction es arbitrary: ps)
  case Nil
  then show ?case by simp
next
  case (Cons e es)
  obtain k v where e: "e = (k, v)" by (cases e)
  from Cons.prems(1) e have "typeof k = ''string''" by simp
  then obtain s0 where k: "k = JStr s0" by (cases k) simp_all
  from Cons.prems have "\<forall>k \<in> fst ` set es. typeof k = ''string''" and "distinct (map fst es)"
    by simp_all
  from Cons.IH [OF this, of "AList.update s0 v ps"]
  obtain ps' where ps': "add_entries rt h (map Inr es) (AList.update s0 v ps) = Inr ps'"
    and keys: "fst ` set ps' = fst ` set (AList.update s0 v ps) \<union> {s. JStr s \<in> fst ` set es}"
    and vals: "\<forall>s. map_of ps' s =
                 (case map_of es (JStr s) of Some v \<Rightarrow> Some v
                  | None \<Rightarrow> map_of (AList.update s0 v ps) s)"
    by blast
  from Cons.prems(2) e k have fresh: "map_of es (JStr s0) = None"
    by (simp add: map_of_eq_None_iff)
  have "add_entries rt h (map Inr (e # es)) ps = Inr ps'"
    using ps' e k by (simp add: ToPropertyKey_def)
  moreover have "fst ` set ps' = fst ` set ps \<union> {s. JStr s \<in> fst ` set (e # es)}"
    using keys e k by (auto simp: AList.dom_update)
  moreover have "\<forall>s. map_of ps' s =
      (case map_of (e # es) (JStr s) of Some v \<Rightarrow> Some v | None \<Rightarrow> map_of ps s)"
    using vals fresh e k by (auto simp: AList.update_conv' split: option.splits)
  ultimately show ?case by blast
qed

lemma fromEntries_string_Map:
  assumes "obj_at h m = HMap es"
    and "\<forall>k \<in> fst ` set es. typeof k = ''string''" and "distinct (map fst es)"
  shows "\<exists>ps. Object_fromEntries rt h (JRef m) = (Inr (JRef (length h)), h @ [HObject ps])
           \<and> fst ` set ps = {s. JStr s \<in> fst ` set es}
           \<and> (\<forall>s. map_of ps s = map_of es (JStr s))"
proof -
  from add_entries_string_keys [OF assms(2,3), of rt h "[]"]
  obtain ps where ps: "add_entries rt h (map Inr es) [] = Inr ps"
    and keys: "fst ` set ps = fst ` set ([] :: (string \<times> jsval) list) \<union> {s. JStr s \<in> fst ` set es}"
    and vals: "\<forall>s. map_of ps s =
                 (case map_of es (JStr s) of Some v \<Rightarrow> Some v | None \<Rightarrow> map_of [] s)"
    by blast
  from vals have "\<forall>s. map_of ps s = map_of es (JStr s)"
    by (simp split: option.splits)
  with ps keys assms(1) show ?thesis
    by (simp add: Object_fromEntries_def iterate_def)
qed

text \<open>
  Once the arguments are valid and the selected member is a function, the call is that
  one invocation, and it ends as the awaited answer and \<^verbatim>\<open>Object.fromEntries\<close>
  decide.
\<close>

lemma await_then_fromEntries:
  assumes "GetV h kv ''get'' = Inr (JFun g)" and "Array_isArray h keys"
    and "GetV h kv (if truthy wm then ''getWithMetadata'' else ''get'') = Inr (JFun f)"
  shows "calls (kv_bulk_get rt h kv keys ty wm) =
           [\<lparr>member_name = (if truthy wm then ''getWithMetadata'' else ''get''),
             callee = f, this_arg = kv, keys_arg = keys,
             options_arg = \<lparr>type = (if ty = JUndefined then JStr ''text'' else ty)\<rparr>\<rparr>]
         \<and> (outcome (kv_bulk_get rt h kv keys ty wm),
            heap_after (kv_bulk_get rt h kv keys ty wm)) =
             (case invoke rt f h kv keys
                     \<lparr>type = (if ty = JUndefined then JStr ''text'' else ty)\<rparr> of
                (Fulfilled m, h1) \<Rightarrow>
                  (case Object_fromEntries rt h1 m of
                     (Inl e, h2) \<Rightarrow> (Rejected e, h2)
                   | (Inr obj, h2) \<Rightarrow> (Fulfilled obj, h2))
              | (Rejected e, h1) \<Rightarrow> (Rejected e, h1)
              | (Pending, h1) \<Rightarrow> (Pending, h1))"
proof -
  let ?opts = "\<lparr>type = default_param ty (JStr ''text'')\<rparr>"
  have opts: "?opts = \<lparr>type = (if ty = JUndefined then JStr ''text'' else ty)\<rparr>"
    by (simp add: default_param_def)
  obtain out h1 where i: "invoke rt f h kv keys ?opts = (out, h1)"
    by (cases "invoke rt f h kv keys ?opts")
  from kv_bulk_get_valid [OF assms(1,2), of rt ty wm] call_member_fun [OF assms(3) i] i
  show ?thesis
    unfolding opts
    by (cases out) (auto simp: return_fromEntries_def split: prod.splits sum.splits)
qed

text \<open>Unfolding everything evaluates the function on the example store.\<close>

lemmas demo_simps =
  kv_bulk_get_def demo_rt_def demo_heap_def demo_invoke_def demo_elements_def demo_data_def
  demo_to_property_key_def GetV_def obj_at_def default_param_def Array_isArray_def
  call_member_def return_fromEntries_def Object_fromEntries_def iterate_def ToPropertyKey_def
  entry_of_def entry_part_def is_object_def throw_def heap_after_calls_def
  InvalidStoreHandle_def InvalidKeyList_def

section \<open>Pass-through of the store's answer\<close>

text \<open>
  Claim C1. Let the store handle have a callable \<^verbatim>\<open>get\<close>, the keys be an array and
  the metadata flag be false (or omitted). When the store's value-only bulk read
  answers with a Map whose keys are strings, \<^verbatim>\<open>kv_bulk_get\<close> is fulfilled with a
  reference to a fresh plain object whose key set is exactly the key set of that Map,
  and which maps each key to the very value the Map holds for it, \<^verbatim>\<open>null\<close>
  included. (A Map holds one entry per key, hence \<open>distinct\<close>.)
\<close>

theorem value_only_pass_through:
  assumes "GetV h kv ''get'' = Inr (JFun f)"
    and "Array_isArray h keys"
    and "\<not> truthy wm"
    and "invoke rt f h kv keys \<lparr>type = default_param ty (JStr ''text'')\<rparr>
           = (Fulfilled (JRef m), h1)"
    and "obj_at h1 m = HMap es"
    and "\<forall>k \<in> fst ` set es. typeof k = ''string''"
    and "distinct (map fst es)"
  shows "\<exists>ps. outcome (kv_bulk_get rt h kv keys ty wm) = Fulfilled (JRef (length h1))
           \<and> heap_after (kv_bulk_get rt h kv keys ty wm) = h1 @ [HObject ps]
           \<and> fst ` set ps = {s. JStr s \<in> fst ` set es}
           \<and> (\<forall>s. map_of ps s = map_of es (JStr s))"
proof -
  from fromEntries_string_Map [OF assms(5-7), of rt]
  obtain ps where "Object_fromEntries rt h1 (JRef m) = (Inr (JRef (length h1)), h1 @ [HObject ps])"
    and "fst ` set ps = {s. JStr s \<in> fst ` set es}"
    and "\<forall>s. map_of ps s = map_of es (JStr s)"
    by blast
  moreover have "kv_bulk_get rt h kv keys ty wm =
      return_fromEntries rt
        (Fulfilled (JRef m), h1,
         [\<lparr>member_name = ''get'', callee = f, this_arg = kv, keys_arg = keys,
           options_arg = \<lparr>type = default_param ty (JStr ''text'')\<rparr>\<rparr>])"
    using kv_bulk_get_valid [OF assms(1,2), of rt ty wm] assms(3)
      call_member_fun [OF assms(1,4)]
    by simp
  ultimately show ?thesis
    by (simp add: return_fromEntries_def)
qed

theorem value_only_pass_through_witness:
  "\<exists>ps. outcome (kv_bulk_get demo_rt demo_heap (JRef 0) (JRef 1) JUndefined (JBool False))
           = Fulfilled (JRef 8)
     \<and> heap_after (kv_bulk_get demo_rt demo_heap (JRef 0) (JRef 1) JUndefined (JBool False))
           = demo_heap
             @ [HMap [(JStr ''a'', JStr ''1''), (JStr ''b'', JStr ''2''), (JStr ''c'', JNull)],
                HObject ps]
     \<and> fst ` set ps = {''a'', ''b'', ''c''}
     \<and> map_of ps ''a'' = Some (JStr ''1'')
     \<and> map_of ps ''b'' = Some (JStr ''2'')
     \<and> map_of ps ''c'' = Some JNull"
proof -
  let ?es = "[(JStr ''a'', JStr ''1''), (JStr ''b'', JStr ''2''), (JStr ''c'', JNull)]"
  have 1: "GetV demo_heap (JRef 0) ''get'' = Inr (JFun (Host_fn 0))"
    by (simp add: demo_simps)
  have 2: "Array_isArray demo_heap (JRef 1)"
    by (simp add: demo_simps)
  have 3: "\<not> truthy (JBool False)"
    by simp
  have 4: "invoke demo_rt (Host_fn 0) demo_heap (JRef 0) (JRef 1)
             \<lparr>type = default_param JUndefined (JStr ''text'')\<rparr>
           = (Fulfilled (JRef 7), demo_heap @ [HMap ?es])"
    by (simp add: demo_simps)
  have 5: "obj_at (demo_heap @ [HMap ?es]) 7 = HMap ?es"
    by (simp add: demo_simps)
  have 6: "\<forall>k \<in> fst ` set ?es. typeof k = ''string''"
    by simp
  have 7: "distinct (map fst ?es)"
    by simp
  have 8: "{s. JStr s \<in> fst ` set ?es} = {''a'', ''b'', ''c''}"
    by auto
  have 9: "length (demo_heap @ [HMap ?es]) = 8"
    by (simp add: demo_heap_def)
  from value_only_pass_through [OF 1 2 3 4 5 6 7]
  obtain ps where
    r: "outcome (kv_bulk_get demo_rt demo_heap (JRef 0) (JRef 1) JUndefined (JBool False))
          = Fulfilled (JRef (length (demo_heap @ [HMap ?es])))"
      "heap_after (kv_bulk_get demo_rt demo_heap (JRef 0) (JRef 1) JUndefined (JBool False))
          = (demo_heap @ [HMap ?es]) @ [HObject ps]"
    and dom: "fst ` set ps = {s. JStr s \<in> fst ` set ?es}"
    and vals: "\<forall>s. map_of ps s = map_of ?es (JStr s)"
    by blast
  from vals have "map_of ps ''a'' = Some (JStr ''1'')" "map_of ps ''b'' = Some (JStr ''2'')"
    "map_of ps ''c'' = Some JNull"
    by simp_all
  with r dom 8 9 show ?thesis
    by (intro exI [of _ ps]) simp
qed

text \<open>
  Claim C2. With the metadata flag true, a handle whose \<^verbatim>\<open>get\<close> and
  \<^verbatim>\<open>getWithMetadata\<close> are callable, and a combined read that answers with a Map
  with string keys, the result is a fresh plain object that maps every key of the Map
  to the value the Map holds for it. Where that value is a reference to a composite
  \<^verbatim>\<open>{value, metadata}\<close>, the result holds the same reference, and the composite
  itself is in the final heap as the store left it.
\<close>

theorem metadata_pass_through:
  assumes "GetV h kv ''get'' = Inr (JFun g)"
    and "GetV h kv ''getWithMetadata'' = Inr (JFun f)"
    and "Array_isArray h keys"
    and "truthy wm"
    and "invoke rt f h kv keys \<lparr>type = default_param ty (JStr ''text'')\<rparr>
           = (Fulfilled (JRef m), h1)"
    and "obj_at h1 m = HMap es"
    and "\<forall>k \<in> fst ` set es. typeof k = ''string''"
    and "distinct (map fst es)"
  shows "\<exists>ps. outcome (kv_bulk_get rt h kv keys ty wm) = Fulfilled (JRef (length h1))
           \<and> heap_after (kv_bulk_get rt h kv keys ty wm) = h1 @ [HObject ps]
           \<and> (\<forall>s. map_of ps s = map_of es (JStr s))
           \<and> (\<forall>s c. map_of es (JStr s) = Some (JRef c) \<and> c < length h1 \<longrightarrow>
                  map_of ps s = Some (JRef c)
                  \<and> obj_at (heap_after (kv_bulk_get rt h kv keys ty wm)) c = obj_at h1 c)"
proof -
  from fromEntries_string_Map [OF assms(6-8), of rt]
  obtain ps where fe: "Object_fromEntries rt h1 (JRef m) = (Inr (JRef (length h1)), h1 @ [HObject ps])"
    and vals: "\<forall>s. map_of ps s = map_of es (JStr s)"
    by blast
  have "kv_bulk_get rt h kv keys ty wm =
      return_fromEntries rt
        (Fulfilled (JRef m), h1,
         [\<lparr>member_name = ''getWithMetadata'', callee = f, this_arg = kv, keys_arg = keys,
           options_arg = \<lparr>type = default_param ty (JStr ''text'')\<rparr>\<rparr>])"
    using kv_bulk_get_valid [OF assms(1,3), of rt ty wm] assms(4)
      call_member_fun [OF assms(2,5)]
    by simp
  with fe have r: "outcome (kv_bulk_get rt h kv keys ty wm) = Fulfilled (JRef (length h1))"
    "heap_after (kv_bulk_get rt h kv keys ty wm) = h1 @ [HObject ps]"
    by (simp_all add: return_fromEntries_def)
  have "\<forall>c < length h1. obj_at (h1 @ [HObject ps]) c = obj_at h1 c"
    by (simp add: obj_at_def nth_append)
  with r vals show ?thesis by auto
qed

theorem metadata_pass_through_witness:
  "\<exists>ps. outcome (kv_bulk_get demo_rt demo_heap (JRef 0) (JRef 1) (JStr ''json'') (JBool True))
           = Fulfilled (JRef 10)
     \<and> obj_at (heap_after
                 (kv_bulk_get demo_rt demo_heap (JRef 0) (JRef 1) (JStr ''json'') (JBool True)))
          10 = HObject ps
     \<and> map_of ps ''a'' = Some (JRef 7)
     \<and> obj_at (heap_after
                 (kv_bulk_get demo_rt demo_heap (JRef 0) (JRef 1) (JStr ''json'') (JBool True)))
          7 = HObject [(''value'', JStr ''1''), (''metadata'', JStr ''M_a'')]
     \<and> map_of ps ''c'' = Some JNull"
proof -
  let ?es = "[(JStr ''a'', JRef 7), (JStr ''b'', JRef 8), (JStr ''c'', JNull)]"
  let ?h1 = "demo_heap
     @ [HObject [(''value'', JStr ''1''), (''metadata'', JStr ''M_a'')],
        HObject [(''value'', JStr ''2''), (''metadata'', JStr ''M_b'')],
        HMap ?es]"
  have 1: "GetV demo_heap (JRef 0) ''get'' = Inr (JFun (Host_fn 0))"
    by (simp add: demo_simps)
  have 2: "GetV demo_heap (JRef 0) ''getWithMetadata'' = Inr (JFun (Host_fn 1))"
    by (simp add: demo_simps)
  have 3: "Array_isArray demo_heap (JRef 1)"
    by (simp add: demo_simps)
  have 4: "truthy (JBool True)"
    by simp
  have 5: "invoke demo_rt (Host_fn 1) demo_heap (JRef 0) (JRef 1)
             \<lparr>type = default_param (JStr ''json'') (JStr ''text'')\<rparr>
           = (Fulfilled (JRef 9), ?h1)"
    by (simp add: demo_simps)
  have 6: "obj_at ?h1 9 = HMap ?es"
    by (simp add: demo_simps)
  have 7: "\<forall>k \<in> fst ` set ?es. typeof k = ''string''"
    by simp
  have 8: "distinct (map fst ?es)"
    by simp
  have 9: "length ?h1 = 10" "obj_at ?h1 7 = HObject [(''value'', JStr ''1''), (''metadata'', JStr ''M_a'')]"
    by (simp_all add: demo_simps)
  from metadata_pass_through [OF 1 2 3 4 5 6 7 8]
  obtain ps where
    r: "outcome (kv_bulk_get demo_rt demo_heap (JRef 0) (JRef 1) (JStr ''json'') (JBool True))
          = Fulfilled (JRef (length ?h1))"
      "heap_after (kv_bulk_get demo_rt demo_heap (JRef 0) (JRef 1) (JStr ''json'') (JBool True))
          = ?h1 @ [HObject ps]"
    and vals: "\<forall>s. map_of ps s = map_of ?es (JStr s)"
    and refs: "\<forall>s c. map_of ?es (JStr s) = Some (JRef c) \<and> c < length ?h1 \<longrightarrow>
         map_of ps s = Some (JRef c)
         \<and> obj_at (heap_after
              (kv_bulk_get demo_rt demo_heap (JRef 0) (JRef 1) (JStr ''json'') (JBool True))) c
             = obj_at ?h1 c"
    by blast
  from refs [rule_format, of "''a''" 7] 9
  have "obj_at (heap_after
          (kv_bulk_get demo_rt demo_heap (JRef 0) (JRef 1) (JStr ''json'') (JBool True))) 7
        = HObject [(''value'', JStr ''1''), (''metadata'', JStr ''M_a'')]"
    by simp
  moreover from r 9(1)
  have "obj_at (heap_after
          (kv_bulk_get demo_rt demo_heap (JRef 0) (JRef 1) (JStr ''json'') (JBool True))) 10
        = HObject ps"
    by (simp add: obj_at_def nth_append)
  moreover have "map_of ps ''a'' = Some (JRef 7)" "map_of ps ''c'' = Some JNull"
    using vals by simp_all
  ultimately show ?thesis
    using r(1) 9(1) by auto
qed

text \<open>
  Claim C8. For a valid handle and an empty keys array, if the selected store read
  accepts the empty batch and answers with an empty Map, the call is fulfilled with a
  fresh empty plain object, after exactly one store call.
\<close>

theorem empty_keys_empty_result:
  assumes "GetV h kv ''get'' = Inr (JFun g)"
    and "GetV h kv (if truthy wm then ''getWithMetadata'' else ''get'') = Inr (JFun f)"
    and "keys = JRef a" and "obj_at h a = HArray []"
    and "invoke rt f h kv keys \<lparr>type = default_param ty (JStr ''text'')\<rparr>
           = (Fulfilled (JRef m), h1)"
    and "obj_at h1 m = HMap []"
  shows "kv_bulk_get rt h kv keys ty wm =
           \<lparr>outcome = Fulfilled (JRef (length h1)), heap_after = h1 @ [HObject []],
            calls = [\<lparr>member_name = (if truthy wm then ''getWithMetadata'' else ''get''),
                      callee = f, this_arg = kv, keys_arg = keys,
                      options_arg = \<lparr>type = default_param ty (JStr ''text'')\<rparr>\<rparr>]\<rparr>"
proof -
  from assms(3,4) have "Array_isArray h keys"
    by (simp add: Array_isArray_def)
  from kv_bulk_get_valid [OF assms(1) this, of rt ty wm] call_member_fun [OF assms(2,5)]
    assms(6)
  show ?thesis
    by (simp add: return_fromEntries_def Object_fromEntries_def iterate_def)
qed

theorem empty_keys_empty_result_witness:
  "obj_at demo_heap 4 = HArray []
   \<and> kv_bulk_get demo_rt demo_heap (JRef 0) (JRef 4) JUndefined JUndefined =
       \<lparr>outcome = Fulfilled (JRef 8), heap_after = demo_heap @ [HMap [], HObject []],
        calls = [\<lparr>member_name = ''get'', callee = Host_fn 0, this_arg = JRef 0,
                  keys_arg = JRef 4, options_arg = \<lparr>type = JStr ''text''\<rparr>\<rparr>]\<rparr>"
proof -
  have 1: "GetV demo_heap (JRef 0) ''get'' = Inr (JFun (Host_fn 0))"
    by (simp add: demo_simps)
  have 2: "GetV demo_heap (JRef 0) (if truthy JUndefined then ''getWithMetadata'' else ''get'')
             = Inr (JFun (Host_fn 0))"
    by (simp add: demo_simps)
  have 3: "obj_at demo_heap 4 = HArray []"
    by (simp add: demo_simps)
  have 4: "invoke demo_rt (Host_fn 0) demo_heap (JRef 0) (JRef 4)
             \<lparr>type = default_param JUndefined (JStr ''text'')\<rparr>
           = (Fulfilled (JRef 7), demo_heap @ [HMap []])"
    by (simp add: demo_simps)
  have 5: "obj_at (demo_heap @ [HMap []]) 7 = HMap []"
    by (simp add: demo_simps)
  from empty_keys_empty_result [OF 1 2 refl 3 4 5] 3 show ?thesis
    by (simp add: default_param_def demo_heap_def)
qed

section \<open>Failures of the store\<close>

text \<open>
  Claim C3. When the store call is reached and fails (its promise is rejected with
  \<open>e\<close>, or the callee throws \<open>e\<close>), \<^verbatim>\<open>kv_bulk_get\<close> is rejected with the same
  \<open>e\<close>, after that single call (no retry), and the heap is exactly the one the store
  left: no result object has been built.
\<close>

theorem store_failure_propagates:
  assumes "GetV h kv ''get'' = Inr (JFun g)"
    and "Array_isArray h keys"
    and "GetV h kv (if truthy wm then ''getWithMetadata'' else ''get'') = Inr (JFun f)"
    and "invoke rt f h kv keys \<lparr>type = default_param ty (JStr ''text'')\<rparr> = (Rejected e, h1)"
  shows "kv_bulk_get rt h kv keys ty wm =
           \<lparr>outcome = Rejected e, heap_after = h1,
            calls = [\<lparr>member_name = (if truthy wm then ''getWithMetadata'' else ''get''),
                      callee = f, this_arg = kv, keys_arg = keys,
                      options_arg = \<lparr>type = default_param ty (JStr ''text'')\<rparr>\<rparr>]\<rparr>"
  using kv_bulk_get_valid [OF assms(1,2), of rt ty wm] call_member_fun [OF assms(3,4)]
  by (simp add: return_fromEntries_def)

theorem store_failure_propagates_witness:
  "kv_bulk_get demo_rt demo_heap (JRef 5) (JRef 1) JUndefined (JBool True) =
     \<lparr>outcome = Rejected (Error ''quota exceeded''), heap_after = demo_heap,
      calls = [\<lparr>member_name = ''getWithMetadata'', callee = Host_fn 2, this_arg = JRef 5,
                keys_arg = JRef 1, options_arg = \<lparr>type = JStr ''text''\<rparr>\<rparr>]\<rparr>"
proof -
  have 1: "GetV demo_heap (JRef 5) ''get'' = Inr (JFun (Host_fn 2))"
    by (simp add: demo_simps)
  have 2: "Array_isArray demo_heap (JRef 1)"
    by (simp add: demo_simps)
  have 3: "GetV demo_heap (JRef 5) (if truthy (JBool True) then ''getWithMetadata'' else ''get'')
             = Inr (JFun (Host_fn 2))"
    by (simp add: demo_simps)
  have 4: "invoke demo_rt (Host_fn 2) demo_heap (JRef 5) (JRef 1)
             \<lparr>type = default_param JUndefined (JStr ''text'')\<rparr>
           = (Rejected (Error ''quota exceeded''), demo_heap)"
    by (simp add: demo_simps)
  from store_failure_propagates [OF 1 2 3 4] show ?thesis
    by (simp add: default_param_def)
qed

section \<open>Validation of the arguments\<close>

text \<open>
  Claim C5. A store argument that is missing (\<^verbatim>\<open>undefined\<close>, \<^verbatim>\<open>null\<close>, or any
  other falsy value), or whose \<^verbatim>\<open>get\<close> member is not a function, makes the call
  fail with the error the spec names InvalidStoreHandle, whatever the keys, the decode
  format and the metadata flag are; no store member is invoked and the heap is
  untouched.
\<close>

theorem invalid_store_handle:
  assumes "\<not> truthy kv \<or> (\<forall>f. GetV h kv ''get'' \<noteq> Inr (JFun f))"
  shows "kv_bulk_get rt h kv keys ty wm =
           \<lparr>outcome = Rejected InvalidStoreHandle, heap_after = h, calls = []\<rparr>"
proof (cases "truthy kv")
  case False
  then show ?thesis
    by (simp add: kv_bulk_get_def throw_def InvalidStoreHandle_def)
next
  case True
  then obtain g where g: "GetV h kv ''get'' = Inr g"
    using GetV_truthy by blast
  with assms True have "typeof g \<noteq> ''function''"
    by (auto simp: typeof_function_iff)
  with True g show ?thesis
    by (simp add: kv_bulk_get_def throw_def InvalidStoreHandle_def)
qed

theorem invalid_store_handle_witness:
  "kv_bulk_get demo_rt demo_heap JNull (JRef 1) JUndefined JUndefined =
     \<lparr>outcome = Rejected InvalidStoreHandle, heap_after = demo_heap, calls = []\<rparr>
   \<and> GetV demo_heap (JRef 3) ''get'' = Inr JUndefined
   \<and> kv_bulk_get demo_rt demo_heap (JRef 3) (JRef 1) (JStr ''json'') (JBool True) =
     \<lparr>outcome = Rejected InvalidStoreHandle, heap_after = demo_heap, calls = []\<rparr>"
proof -
  have 1: "\<not> truthy JNull \<or> (\<forall>f. GetV demo_heap JNull ''get'' \<noteq> Inr (JFun f))"
    by simp
  have g: "GetV demo_heap (JRef 3) ''get'' = Inr JUndefined"
    by (simp add: demo_simps)
  then have 2: "\<not> truthy (JRef 3) \<or> (\<forall>f. GetV demo_heap (JRef 3) ''get'' \<noteq> Inr (JFun f))"
    by simp
  from invalid_store_handle [OF 1, of demo_rt "JRef 1" JUndefined JUndefined]
    invalid_store_handle [OF 2, of demo_rt "JRef 1" "JStr ''json''" "JBool True"] g
  show ?thesis by simp
qed

text \<open>
  Claim C4, as amended. Keys that are not an array always end the call with an error
  and without any store call. The error is InvalidKeyList when the store handle passes
  the store check (it is truthy and its \<^verbatim>\<open>get\<close> is a function); it is
  InvalidStoreHandle otherwise, because the store is checked first.
\<close>

theorem non_array_keys_rejected:
  assumes "\<not> Array_isArray h keys"
  shows "kv_bulk_get rt h kv keys ty wm =
           \<lparr>outcome =
              Rejected (if truthy kv \<and> (\<exists>g. GetV h kv ''get'' = Inr (JFun g))
                        then InvalidKeyList else InvalidStoreHandle),
            heap_after = h, calls = []\<rparr>"
proof (cases "truthy kv \<and> (\<exists>g. GetV h kv ''get'' = Inr (JFun g))")
  case True
  with assms show ?thesis
    by (auto simp: kv_bulk_get_def throw_def InvalidKeyList_def)
next
  case False
  show ?thesis
  proof (cases "truthy kv")
    case nk: False
    then show ?thesis
      by (simp add: kv_bulk_get_def throw_def InvalidStoreHandle_def)
  next
    case tk: True
    then obtain x where x: "GetV h kv ''get'' = Inr x"
      using GetV_truthy by blast
    with False tk have "typeof x \<noteq> ''function''"
      by (auto simp: typeof_function_iff)
    with False tk x show ?thesis
      by (simp add: kv_bulk_get_def throw_def InvalidStoreHandle_def)
  qed
qed

theorem non_array_keys_rejected_witness:
  "\<not> Array_isArray demo_heap (JStr ''a'')
   \<and> kv_bulk_get demo_rt demo_heap (JRef 0) (JStr ''a'') (JStr ''json'') (JBool True) =
       \<lparr>outcome = Rejected InvalidKeyList, heap_after = demo_heap, calls = []\<rparr>
   \<and> kv_bulk_get demo_rt demo_heap (JRef 3) (JStr ''a'') (JStr ''json'') (JBool True) =
       \<lparr>outcome = Rejected InvalidStoreHandle, heap_after = demo_heap, calls = []\<rparr>"
proof -
  have 1: "\<not> Array_isArray demo_heap (JStr ''a'')"
    by (simp add: Array_isArray_def)
  have 2: "GetV demo_heap (JRef 0) ''get'' = Inr (JFun (Host_fn 0))"
    "GetV demo_heap (JRef 3) ''get'' = Inr JUndefined"
    by (simp_all add: demo_simps)
  from non_array_keys_rejected [OF 1, of demo_rt "JRef 0" "JStr ''json''" "JBool True"]
    non_array_keys_rejected [OF 1, of demo_rt "JRef 3" "JStr ''json''" "JBool True"] 1 2
  show ?thesis by simp
qed

text \<open>
  Claim C4 as stated fails for a store handle that does not pass the store check: with
  \<^verbatim>\<open>null\<close> for the store and the single string \<^verbatim>\<open>"a"\<close> for the keys, the error
  is the one of the store check, not InvalidKeyList.
\<close>

theorem non_array_keys_invalid_store_counterexample:
  "\<not> Array_isArray demo_heap (JStr ''a'')
   \<and> outcome (kv_bulk_get demo_rt demo_heap JNull (JStr ''a'') JUndefined JUndefined)
       = Rejected (Error ''KV namespace not valid'')
   \<and> outcome (kv_bulk_get demo_rt demo_heap JNull (JStr ''a'') JUndefined JUndefined)
       \<noteq> Rejected InvalidKeyList"
  by (simp add: demo_simps)

text \<open>
  Claim C6, as amended. For a store handle that passes the store check, the call
  fails with InvalidKeyList, before any store call and with the heap untouched,
  exactly when the keys are not an array. The elements of an array are never
  inspected. For an array, whatever it holds: if the selected member
  (\<^verbatim>\<open>getWithMetadata\<close> when the metadata flag is truthy, \<^verbatim>\<open>get\<close> otherwise) is
  a function, it is invoked exactly once with that very array, and the call ends as
  the store's answer decides (a rejection is passed on, a pending answer stays
  pending, a fulfilled answer goes through \<^verbatim>\<open>Object.fromEntries\<close>); if the
  selected member is not a function, the call fails with the TypeError of the call
  expression and nothing is invoked.
\<close>

theorem key_list_check_is_array_check:
  assumes "GetV h kv ''get'' = Inr (JFun g)"
  shows "((outcome (kv_bulk_get rt h kv keys ty wm) = Rejected InvalidKeyList
             \<and> calls (kv_bulk_get rt h kv keys ty wm) = [])
          \<longleftrightarrow> \<not> Array_isArray h keys)
       \<and> (\<not> Array_isArray h keys \<longrightarrow>
            kv_bulk_get rt h kv keys ty wm =
              \<lparr>outcome = Rejected InvalidKeyList, heap_after = h, calls = []\<rparr>)
       \<and> (Array_isArray h keys \<longrightarrow>
            (case GetV h kv (if truthy wm then ''getWithMetadata'' else ''get'') of
               Inr (JFun f) \<Rightarrow>
                 calls (kv_bulk_get rt h kv keys ty wm) =
                   [\<lparr>member_name = (if truthy wm then ''getWithMetadata'' else ''get''),
                     callee = f, this_arg = kv, keys_arg = keys,
                     options_arg =
                       \<lparr>type = (if ty = JUndefined then JStr ''text'' else ty)\<rparr>\<rparr>]
                 \<and> (outcome (kv_bulk_get rt h kv keys ty wm),
                    heap_after (kv_bulk_get rt h kv keys ty wm)) =
                     (case invoke rt f h kv keys
                             \<lparr>type = (if ty = JUndefined then JStr ''text'' else ty)\<rparr> of
                        (Fulfilled m, h1) \<Rightarrow>
                          (case Object_fromEntries rt h1 m of
                             (Inl e, h2) \<Rightarrow> (Rejected e, h2)
                           | (Inr obj, h2) \<Rightarrow> (Fulfilled obj, h2))
                      | (Rejected e, h1) \<Rightarrow> (Rejected e, h1)
                      | (Pending, h1) \<Rightarrow> (Pending, h1))
             | _ \<Rightarrow>
                 kv_bulk_get rt h kv keys ty wm =
                   \<lparr>outcome = Rejected TypeError, heap_after = h, calls = []\<rparr>))"
proof (cases "Array_isArray h keys")
  case False
  with assms GetV_fun_truthy [OF assms] show ?thesis
    by (simp add: kv_bulk_get_def throw_def InvalidKeyList_def)
next
  case True
  let ?sel = "if truthy wm then ''getWithMetadata'' else ''get''"
  show ?thesis
  proof (cases "\<exists>f. GetV h kv ?sel = Inr (JFun f)")
    case callable: True
    then obtain f where f: "GetV h kv ?sel = Inr (JFun f)" by blast
    from await_then_fromEntries [OF assms True f, of rt ty] True f show ?thesis
      by simp
  next
    case False
    from GetV_truthy [OF GetV_fun_truthy [OF assms]]
    obtain x where x: "GetV h kv ?sel = Inr x" by blast
    with False have nf: "\<forall>f. x \<noteq> JFun f" by simp
    from False
    have "call_member rt h kv ?sel keys \<lparr>type = default_param ty (JStr ''text'')\<rparr>
            = (Rejected TypeError, h, [])"
      using call_member_not_fun [OF GetV_fun_truthy [OF assms]] by blast
    with kv_bulk_get_valid [OF assms True, of rt ty wm]
    have r: "kv_bulk_get rt h kv keys ty wm =
        \<lparr>outcome = Rejected TypeError, heap_after = h, calls = []\<rparr>"
      by (simp add: return_fromEntries_def)
    from nf r have "(case Inr x of Inr (JFun f) \<Rightarrow> P f
               | _ \<Rightarrow> kv_bulk_get rt h kv keys ty wm =
                   \<lparr>outcome = Rejected TypeError, heap_after = h, calls = []\<rparr>)"
      for P :: "fn \<Rightarrow> bool"
      by (cases x) simp_all
    with True r x show ?thesis
      by (simp add: InvalidKeyList_def)
  qed
qed

theorem key_list_check_is_array_check_witness:
  "\<not> Array_isArray demo_heap (JNum 5)
   \<and> kv_bulk_get demo_rt demo_heap (JRef 0) (JNum 5) JUndefined JUndefined =
       \<lparr>outcome = Rejected InvalidKeyList, heap_after = demo_heap, calls = []\<rparr>
   \<and> obj_at demo_heap 6 = HArray [JStr ''a'', JNull]
   \<and> kv_bulk_get demo_rt demo_heap (JRef 0) (JRef 6) JUndefined JUndefined =
       \<lparr>outcome = Fulfilled (JRef 8),
        heap_after =
          demo_heap @ [HMap [(JStr ''a'', JStr ''1''), (JNull, JNull)],
                       HObject [(''a'', JStr ''1''), (''null'', JNull)]],
        calls = [\<lparr>member_name = ''get'', callee = Host_fn 0, this_arg = JRef 0,
                  keys_arg = JRef 6, options_arg = \<lparr>type = JStr ''text''\<rparr>\<rparr>]\<rparr>
   \<and> kv_bulk_get demo_rt demo_heap (JRef 2) (JRef 6) JUndefined (JBool True) =
       \<lparr>outcome = Rejected TypeError, heap_after = demo_heap, calls = []\<rparr>"
proof -
  let ?h1 = "demo_heap @ [HMap [(JStr ''a'', JStr ''1''), (JNull, JNull)]]"
  have 1: "GetV demo_heap (JRef 0) ''get'' = Inr (JFun (Host_fn 0))"
    "GetV demo_heap (JRef 2) ''get'' = Inr (JFun (Host_fn 0))"
    by (simp_all add: demo_simps)
  have 2: "\<not> Array_isArray demo_heap (JNum 5)"
    by (simp add: Array_isArray_def)
  have 3: "Array_isArray demo_heap (JRef 6)" "obj_at demo_heap 6 = HArray [JStr ''a'', JNull]"
    by (simp_all add: demo_simps)
  have 4: "GetV demo_heap (JRef 0) (if truthy JUndefined then ''getWithMetadata'' else ''get'')
             = Inr (JFun (Host_fn 0))"
    "GetV demo_heap (JRef 2) (if truthy (JBool True) then ''getWithMetadata'' else ''get'')
             = Inr JUndefined"
    by (simp_all add: demo_simps)
  have 5: "invoke demo_rt (Host_fn 0) demo_heap (JRef 0) (JRef 6) \<lparr>type = JStr ''text''\<rparr>
             = (Fulfilled (JRef 7), ?h1)"
    by (simp add: demo_simps)
  have 6: "Object_fromEntries demo_rt ?h1 (JRef 7)
             = (Inr (JRef 8), ?h1 @ [HObject [(''a'', JStr ''1''), (''null'', JNull)]])"
    by (simp add: demo_simps)
  have a: "kv_bulk_get demo_rt demo_heap (JRef 0) (JNum 5) JUndefined JUndefined =
       \<lparr>outcome = Rejected InvalidKeyList, heap_after = demo_heap, calls = []\<rparr>"
    using key_list_check_is_array_check [OF 1(1), of demo_rt "JNum 5" JUndefined JUndefined] 2
    by simp
  have b: "calls (kv_bulk_get demo_rt demo_heap (JRef 0) (JRef 6) JUndefined JUndefined) =
        [\<lparr>member_name = ''get'', callee = Host_fn 0, this_arg = JRef 0,
                  keys_arg = JRef 6, options_arg = \<lparr>type = JStr ''text''\<rparr>\<rparr>]
      \<and> (outcome (kv_bulk_get demo_rt demo_heap (JRef 0) (JRef 6) JUndefined JUndefined),
         heap_after (kv_bulk_get demo_rt demo_heap (JRef 0) (JRef 6) JUndefined JUndefined)) =
        (Fulfilled (JRef 8), ?h1 @ [HObject [(''a'', JStr ''1''), (''null'', JNull)]])"
    using key_list_check_is_array_check [OF 1(1), of demo_rt "JRef 6" JUndefined JUndefined]
      3(1) 4(1) 5 6
    by simp
  have c: "kv_bulk_get demo_rt demo_heap (JRef 2) (JRef 6) JUndefined (JBool True) =
       \<lparr>outcome = Rejected TypeError, heap_after = demo_heap, calls = []\<rparr>"
    using key_list_check_is_array_check [OF 1(2), of demo_rt "JRef 6" JUndefined "JBool True"]
      3(1) 4(2)
    by simp
  from b have "kv_bulk_get demo_rt demo_heap (JRef 0) (JRef 6) JUndefined JUndefined =
       \<lparr>outcome = Fulfilled (JRef 8),
        heap_after = ?h1 @ [HObject [(''a'', JStr ''1''), (''null'', JNull)]],
        calls = [\<lparr>member_name = ''get'', callee = Host_fn 0, this_arg = JRef 0,
                  keys_arg = JRef 6, options_arg = \<lparr>type = JStr ''text''\<rparr>\<rparr>]\<rparr>"
    by (cases "kv_bulk_get demo_rt demo_heap (JRef 0) (JRef 6) JUndefined JUndefined") simp
  with a c 2 3(2) show ?thesis
    by simp
qed

text \<open>
  Claim C6 as stated fails for an array with an element that is not a string: the
  keys \<^verbatim>\<open>["a", null]\<close> pass validation, the value-only read of the store is
  invoked with them, and the call is fulfilled.
\<close>

theorem non_string_elements_counterexample:
  "obj_at demo_heap 6 = HArray [JStr ''a'', JNull]
   \<and> typeof JNull \<noteq> ''string''
   \<and> outcome (kv_bulk_get demo_rt demo_heap (JRef 0) (JRef 6) JUndefined JUndefined)
       = Fulfilled (JRef 8)
   \<and> outcome (kv_bulk_get demo_rt demo_heap (JRef 0) (JRef 6) JUndefined JUndefined)
       \<noteq> Rejected InvalidKeyList
   \<and> calls (kv_bulk_get demo_rt demo_heap (JRef 0) (JRef 6) JUndefined JUndefined)
       = [\<lparr>member_name = ''get'', callee = Host_fn 0, this_arg = JRef 0, keys_arg = JRef 6,
           options_arg = \<lparr>type = JStr ''text''\<rparr>\<rparr>]"
  by (simp add: demo_simps)

text \<open>
  Claim C7. The store check looks at \<^verbatim>\<open>get\<close> alone, also when the metadata flag
  is true. A handle \<open>kv1\<close> with a callable \<^verbatim>\<open>get\<close> and no callable
  \<^verbatim>\<open>getWithMetadata\<close> passes validation and fails at the call expression itself,
  with the TypeError of calling what is not a function. A handle \<open>kv2\<close> with a
  callable \<^verbatim>\<open>getWithMetadata\<close> and no callable \<^verbatim>\<open>get\<close> fails with
  InvalidStoreHandle.
\<close>

theorem validation_asymmetry:
  assumes "truthy wm"
  shows "(GetV h kv1 ''get'' = Inr (JFun g)
            \<and> (\<forall>f. GetV h kv1 ''getWithMetadata'' \<noteq> Inr (JFun f))
            \<and> Array_isArray h keys
          \<longrightarrow> kv_bulk_get rt h kv1 keys ty wm =
                \<lparr>outcome = Rejected TypeError, heap_after = h, calls = []\<rparr>)
       \<and> ((\<forall>g. GetV h kv2 ''get'' \<noteq> Inr (JFun g))
            \<and> GetV h kv2 ''getWithMetadata'' = Inr (JFun f2)
          \<longrightarrow> kv_bulk_get rt h kv2 keys ty wm =
                \<lparr>outcome = Rejected InvalidStoreHandle, heap_after = h, calls = []\<rparr>)"
proof (intro conjI impI)
  assume a: "GetV h kv1 ''get'' = Inr (JFun g)
            \<and> (\<forall>f. GetV h kv1 ''getWithMetadata'' \<noteq> Inr (JFun f))
            \<and> Array_isArray h keys"
  then have "truthy kv1" using GetV_fun_truthy by blast
  from call_member_not_fun [OF this, of h "''getWithMetadata''"] a
  have "call_member rt h kv1 ''getWithMetadata'' keys \<lparr>type = default_param ty (JStr ''text'')\<rparr>
          = (Rejected TypeError, h, [])"
    by blast
  with a assms kv_bulk_get_valid [of h kv1 g keys rt ty wm]
  show "kv_bulk_get rt h kv1 keys ty wm =
          \<lparr>outcome = Rejected TypeError, heap_after = h, calls = []\<rparr>"
    by (simp add: return_fromEntries_def)
next
  assume b: "(\<forall>g. GetV h kv2 ''get'' \<noteq> Inr (JFun g))
            \<and> GetV h kv2 ''getWithMetadata'' = Inr (JFun f2)"
  then have tk: "truthy kv2" using GetV_fun_truthy by blast
  then obtain x where x: "GetV h kv2 ''get'' = Inr x"
    using GetV_truthy by blast
  with b have "typeof x \<noteq> ''function''"
    by (auto simp: typeof_function_iff)
  with tk x show "kv_bulk_get rt h kv2 keys ty wm =
          \<lparr>outcome = Rejected InvalidStoreHandle, heap_after = h, calls = []\<rparr>"
    by (simp add: kv_bulk_get_def throw_def InvalidStoreHandle_def)
qed

theorem validation_asymmetry_witness:
  "kv_bulk_get demo_rt demo_heap (JRef 2) (JRef 1) JUndefined (JBool True) =
     \<lparr>outcome = Rejected TypeError, heap_after = demo_heap, calls = []\<rparr>
   \<and> kv_bulk_get demo_rt demo_heap (JRef 3) (JRef 1) JUndefined (JBool True) =
     \<lparr>outcome = Rejected InvalidStoreHandle, heap_after = demo_heap, calls = []\<rparr>"
proof -
  have 1: "truthy (JBool True)"
    by simp
  have 2: "GetV demo_heap (JRef 2) ''get'' = Inr (JFun (Host_fn 0))"
    "\<forall>f. GetV demo_heap (JRef 2) ''getWithMetadata'' \<noteq> Inr (JFun f)"
    "Array_isArray demo_heap (JRef 1)"
    by (simp_all add: demo_simps)
  have 3: "\<forall>g. GetV demo_heap (JRef 3) ''get'' \<noteq> Inr (JFun g)"
    "GetV demo_heap (JRef 3) ''getWithMetadata'' = Inr (JFun (Host_fn 1))"
    by (simp_all add: demo_simps)
  from validation_asymmetry
    [OF 1, of demo_heap "JRef 2" "Host_fn 0" "JRef 1" demo_rt JUndefined "JRef 3" "Host_fn 1"]
    2 3
  show ?thesis by blast
qed

section \<open>Effects\<close>

text \<open>
  Claim C9. Every call invokes at most one store member, and the heap it leaves is the
  heap its store call left (the caller's heap when nothing was invoked), with at most
  one addition: when the call is fulfilled, the result is a plain object allocated at
  a fresh address. Every object that existed before, the keys array among them, is
  as the store left it; nothing else is kept from one call to the next.
\<close>

theorem frame_of_kv_bulk_get:
  "let r = kv_bulk_get rt h kv keys ty wm;
       hs = heap_after_calls rt h (calls r)
   in length (calls r) \<le> 1
      \<and> (calls r = [] \<longrightarrow> heap_after r = h)
      \<and> ((\<forall>v. outcome r \<noteq> Fulfilled v) \<longrightarrow> heap_after r = hs)
      \<and> ((\<exists>v. outcome r = Fulfilled v) \<longrightarrow>
           (\<exists>ps. outcome r = Fulfilled (JRef (length hs)) \<and> heap_after r = hs @ [HObject ps]))
      \<and> (\<forall>a < length hs. obj_at (heap_after r) a = obj_at hs a)"
proof -
  let ?sel = "if truthy wm then ''getWithMetadata'' else ''get''"
  let ?opts = "\<lparr>type = default_param ty (JStr ''text'')\<rparr>"
  from kv_bulk_get_shape [of rt h kv keys ty wm]
  show ?thesis
  proof (elim disjE exE conjE)
    fix e
    assume "kv_bulk_get rt h kv keys ty wm =
      \<lparr>outcome = Rejected e, heap_after = h, calls = []\<rparr>"
    then show ?thesis by (simp add: heap_after_calls_def)
  next
    fix f out h1
    define c where "c = \<lparr>member_name = ?sel, callee = f, this_arg = kv, keys_arg = keys,
      options_arg = ?opts\<rparr>"
    assume "invoke rt f h kv keys ?opts = (out, h1)"
      and r: "kv_bulk_get rt h kv keys ty wm = return_fromEntries rt
        (out, h1,
         [\<lparr>member_name = ?sel, callee = f, this_arg = kv, keys_arg = keys,
           options_arg = ?opts\<rparr>])"
    then have hs: "heap_after_calls rt h [c] = h1"
      by (simp add: heap_after_calls_def c_def)
    from r have "kv_bulk_get rt h kv keys ty wm = return_fromEntries rt (out, h1, [c])"
      by (simp add: c_def)
    with return_fromEntries_shape [of rt out h1 "[c]"] hs show ?thesis
      by (auto simp: Let_def obj_at_def nth_append)
  qed
qed

theorem frame_of_kv_bulk_get_witness:
  "outcome (kv_bulk_get demo_rt demo_heap (JRef 0) (JRef 1) JUndefined JUndefined)
     = Fulfilled (JRef 8)
   \<and> length (calls (kv_bulk_get demo_rt demo_heap (JRef 0) (JRef 1) JUndefined JUndefined)) = 1
   \<and> (\<exists>ps. heap_after (kv_bulk_get demo_rt demo_heap (JRef 0) (JRef 1) JUndefined JUndefined)
            = heap_after_calls demo_rt demo_heap
                (calls (kv_bulk_get demo_rt demo_heap (JRef 0) (JRef 1) JUndefined JUndefined))
              @ [HObject ps])
   \<and> obj_at (heap_after (kv_bulk_get demo_rt demo_heap (JRef 0) (JRef 1) JUndefined JUndefined)) 1
       = HArray [JStr ''a'', JStr ''b'', JStr ''c'']
   \<and> calls (kv_bulk_get demo_rt demo_heap (JRef 0) (JNum 3) JUndefined JUndefined) = []
   \<and> heap_after (kv_bulk_get demo_rt demo_heap (JRef 0) (JNum 3) JUndefined JUndefined)
       = demo_heap"
proof -
  let ?r = "kv_bulk_get demo_rt demo_heap (JRef 0) (JRef 1) JUndefined JUndefined"
  let ?r' = "kv_bulk_get demo_rt demo_heap (JRef 0) (JNum 3) JUndefined JUndefined"
  have 1: "outcome ?r = Fulfilled (JRef 8)"
    by (simp add: demo_simps)
  have 2: "length (calls ?r) = 1"
    by (simp add: demo_simps)
  have 3: "obj_at (heap_after_calls demo_rt demo_heap (calls ?r)) 1
             = HArray [JStr ''a'', JStr ''b'', JStr ''c'']"
    "1 < length (heap_after_calls demo_rt demo_heap (calls ?r))"
    by (simp_all add: demo_simps)
  have 4: "calls ?r' = []"
    by (simp add: demo_simps)
  from frame_of_kv_bulk_get [of demo_rt demo_heap "JRef 0" "JRef 1" JUndefined JUndefined]
    frame_of_kv_bulk_get [of demo_rt demo_heap "JRef 0" "JNum 3" JUndefined JUndefined]
    1 2 3 4
  show ?thesis by (auto simp: Let_def)
qed

text \<open>
  Claim C10. The decode format is not validated. With a valid handle, an array of keys
  and a callable selected member, the call invokes that member exactly once, whatever
  the format is, and hands it the format as the \<^verbatim>\<open>type\<close> option, or
  \<^verbatim>\<open>"text"\<close> when the format is omitted. How the call ends, and the heap it
  leaves, are then decided by the store's answer to that invocation alone: its
  rejection is passed on, a pending answer stays pending, and a fulfilled answer goes
  through \<^verbatim>\<open>Object.fromEntries\<close>. The function adds no error of its own: when
  the answer is a Map with string keys, the call is fulfilled for every format. Every
  fulfilled call made exactly one store call: \<^verbatim>\<open>getWithMetadata\<close> when the
  metadata flag is true, \<^verbatim>\<open>get\<close> otherwise. And a call that ends without a
  store call ends the same way for every other format.
\<close>

theorem decode_format_forwarded:
  "(GetV h kv ''get'' = Inr (JFun g) \<and> Array_isArray h keys
      \<and> GetV h kv (if truthy wm then ''getWithMetadata'' else ''get'') = Inr (JFun f)
    \<longrightarrow> calls (kv_bulk_get rt h kv keys ty wm) =
          [\<lparr>member_name = (if truthy wm then ''getWithMetadata'' else ''get''),
            callee = f, this_arg = kv, keys_arg = keys,
            options_arg = \<lparr>type = (if ty = JUndefined then JStr ''text'' else ty)\<rparr>\<rparr>]
        \<and> (outcome (kv_bulk_get rt h kv keys ty wm),
           heap_after (kv_bulk_get rt h kv keys ty wm)) =
            (case invoke rt f h kv keys
                    \<lparr>type = (if ty = JUndefined then JStr ''text'' else ty)\<rparr> of
               (Fulfilled m, h1) \<Rightarrow>
                 (case Object_fromEntries rt h1 m of
                    (Inl e, h2) \<Rightarrow> (Rejected e, h2)
                  | (Inr obj, h2) \<Rightarrow> (Fulfilled obj, h2))
             | (Rejected e, h1) \<Rightarrow> (Rejected e, h1)
             | (Pending, h1) \<Rightarrow> (Pending, h1)))
   \<and> (GetV h kv ''get'' = Inr (JFun g) \<and> Array_isArray h keys
      \<and> GetV h kv (if truthy wm then ''getWithMetadata'' else ''get'') = Inr (JFun f)
      \<and> invoke rt f h kv keys \<lparr>type = (if ty = JUndefined then JStr ''text'' else ty)\<rparr>
          = (Fulfilled (JRef m), hm)
      \<and> obj_at hm m = HMap es
      \<and> (\<forall>k \<in> fst ` set es. typeof k = ''string'') \<and> distinct (map fst es)
    \<longrightarrow> outcome (kv_bulk_get rt h kv keys ty wm) = Fulfilled (JRef (length hm)))
   \<and> ((\<exists>v. outcome (kv_bulk_get rt h kv keys ty wm) = Fulfilled v)
    \<longrightarrow> (\<exists>c. calls (kv_bulk_get rt h kv keys ty wm) = [c]
            \<and> member_name c = (if truthy wm then ''getWithMetadata'' else ''get'')
            \<and> options_arg c = \<lparr>type = (if ty = JUndefined then JStr ''text'' else ty)\<rparr>))
   \<and> (calls (kv_bulk_get rt h kv keys ty wm) = []
    \<longrightarrow> kv_bulk_get rt h kv keys ty' wm = kv_bulk_get rt h kv keys ty wm)"
proof (intro conjI impI)
  assume a: "GetV h kv ''get'' = Inr (JFun g) \<and> Array_isArray h keys
      \<and> GetV h kv (if truthy wm then ''getWithMetadata'' else ''get'') = Inr (JFun f)"
  then have "GetV h kv ''get'' = Inr (JFun g)" "Array_isArray h keys"
    "GetV h kv (if truthy wm then ''getWithMetadata'' else ''get'') = Inr (JFun f)"
    by simp_all
  from await_then_fromEntries [OF this, of rt ty]
  show "calls (kv_bulk_get rt h kv keys ty wm) =
          [\<lparr>member_name = (if truthy wm then ''getWithMetadata'' else ''get''),
            callee = f, this_arg = kv, keys_arg = keys,
            options_arg = \<lparr>type = (if ty = JUndefined then JStr ''text'' else ty)\<rparr>\<rparr>]"
    and "(outcome (kv_bulk_get rt h kv keys ty wm),
           heap_after (kv_bulk_get rt h kv keys ty wm)) =
            (case invoke rt f h kv keys
                    \<lparr>type = (if ty = JUndefined then JStr ''text'' else ty)\<rparr> of
               (Fulfilled m, h1) \<Rightarrow>
                 (case Object_fromEntries rt h1 m of
                    (Inl e, h2) \<Rightarrow> (Rejected e, h2)
                  | (Inr obj, h2) \<Rightarrow> (Fulfilled obj, h2))
             | (Rejected e, h1) \<Rightarrow> (Rejected e, h1)
             | (Pending, h1) \<Rightarrow> (Pending, h1))"
    by blast+
next
  assume b: "GetV h kv ''get'' = Inr (JFun g) \<and> Array_isArray h keys
      \<and> GetV h kv (if truthy wm then ''getWithMetadata'' else ''get'') = Inr (JFun f)
      \<and> invoke rt f h kv keys \<lparr>type = (if ty = JUndefined then JStr ''text'' else ty)\<rparr>
          = (Fulfilled (JRef m), hm)
      \<and> obj_at hm m = HMap es
      \<and> (\<forall>k \<in> fst ` set es. typeof k = ''string'') \<and> distinct (map fst es)"
  then have v: "GetV h kv ''get'' = Inr (JFun g)" "Array_isArray h keys"
    "GetV h kv (if truthy wm then ''getWithMetadata'' else ''get'') = Inr (JFun f)"
    and i: "invoke rt f h kv keys \<lparr>type = (if ty = JUndefined then JStr ''text'' else ty)\<rparr>
          = (Fulfilled (JRef m), hm)"
    and m: "obj_at hm m = HMap es" "\<forall>k \<in> fst ` set es. typeof k = ''string''"
      "distinct (map fst es)"
    by simp_all
  from fromEntries_string_Map [OF m, of rt]
  obtain ps where "Object_fromEntries rt hm (JRef m) = (Inr (JRef (length hm)), hm @ [HObject ps])"
    by blast
  with await_then_fromEntries [OF v, of rt ty] i
  show "outcome (kv_bulk_get rt h kv keys ty wm) = Fulfilled (JRef (length hm))"
    by simp
next
  assume "\<exists>v. outcome (kv_bulk_get rt h kv keys ty wm) = Fulfilled v"
  with kv_bulk_get_shape [of rt h kv keys ty wm]
  obtain f out h1 where
    "kv_bulk_get rt h kv keys ty wm =
       return_fromEntries rt
         (out, h1,
          [\<lparr>member_name = (if truthy wm then ''getWithMetadata'' else ''get''),
            callee = f, this_arg = kv, keys_arg = keys,
            options_arg = \<lparr>type = default_param ty (JStr ''text'')\<rparr>\<rparr>])"
    by auto
  with return_fromEntries_shape [of rt out h1]
  show "\<exists>c. calls (kv_bulk_get rt h kv keys ty wm) = [c]
            \<and> member_name c = (if truthy wm then ''getWithMetadata'' else ''get'')
            \<and> options_arg c = \<lparr>type = (if ty = JUndefined then JStr ''text'' else ty)\<rparr>"
    by (simp add: default_param_def)
next
  assume none: "calls (kv_bulk_get rt h kv keys ty wm) = []"
  have valid_calls: "calls (kv_bulk_get rt h kv keys t wm) \<noteq> []"
    if "truthy kv" "GetV h kv ''get'' = Inr (JFun g)" "Array_isArray h keys"
      "GetV h kv (if truthy wm then ''getWithMetadata'' else ''get'') = Inr (JFun f)"
    for g f t
    using await_then_fromEntries [OF that(2-4), of rt t] by simp
  show "kv_bulk_get rt h kv keys ty' wm = kv_bulk_get rt h kv keys ty wm"
  proof (cases "truthy kv \<and> (\<exists>g. GetV h kv ''get'' = Inr (JFun g)) \<and> Array_isArray h keys")
    case False
    then show ?thesis
      by (cases "truthy kv")
        (auto simp: kv_bulk_get_def throw_def Let_def typeof_function_iff split: sum.splits)
  next
    case True
    then obtain g where g: "GetV h kv ''get'' = Inr (JFun g)" and arr: "Array_isArray h keys"
      and tk: "truthy kv" by blast
    with none valid_calls
    have "\<forall>f. GetV h kv (if truthy wm then ''getWithMetadata'' else ''get'') \<noteq> Inr (JFun f)"
      by blast
    from call_member_not_fun [OF tk this] kv_bulk_get_valid [OF g arr, of rt _ wm]
    show ?thesis by simp
  qed
qed

theorem decode_format_forwarded_witness:
  "kv_bulk_get demo_rt demo_heap (JRef 0) (JRef 1) (JStr ''xml'') (JBool True) =
     \<lparr>outcome = Fulfilled (JRef 10),
      heap_after =
        demo_heap
        @ [HObject [(''value'', JStr ''1''), (''metadata'', JStr ''M_a'')],
           HObject [(''value'', JStr ''2''), (''metadata'', JStr ''M_b'')],
           HMap [(JStr ''a'', JRef 7), (JStr ''b'', JRef 8), (JStr ''c'', JNull)],
           HObject [(''a'', JRef 7), (''b'', JRef 8), (''c'', JNull)]],
      calls = [\<lparr>member_name = ''getWithMetadata'', callee = Host_fn 1, this_arg = JRef 0,
                keys_arg = JRef 1, options_arg = \<lparr>type = JStr ''xml''\<rparr>\<rparr>]\<rparr>
   \<and> kv_bulk_get demo_rt demo_heap (JRef 5) (JRef 1) JUndefined (JBool False) =
     \<lparr>outcome = Rejected (Error ''quota exceeded''), heap_after = demo_heap,
      calls = [\<lparr>member_name = ''get'', callee = Host_fn 2, this_arg = JRef 5,
                keys_arg = JRef 1, options_arg = \<lparr>type = JStr ''text''\<rparr>\<rparr>]\<rparr>
   \<and> calls (kv_bulk_get demo_rt demo_heap (JRef 0) (JNum 3) (JStr ''xml'') (JBool True)) = []
   \<and> kv_bulk_get demo_rt demo_heap (JRef 0) (JNum 3) (JNum 7) (JBool True) =
       kv_bulk_get demo_rt demo_heap (JRef 0) (JNum 3) (JStr ''xml'') (JBool True)"
proof -
  let ?es = "[(JStr ''a'', JRef 7), (JStr ''b'', JRef 8), (JStr ''c'', JNull)]"
  let ?h1 = "demo_heap
     @ [HObject [(''value'', JStr ''1''), (''metadata'', JStr ''M_a'')],
        HObject [(''value'', JStr ''2''), (''metadata'', JStr ''M_b'')],
        HMap ?es]"
  let ?r = "kv_bulk_get demo_rt demo_heap (JRef 0) (JRef 1) (JStr ''xml'') (JBool True)"
  let ?q = "kv_bulk_get demo_rt demo_heap (JRef 5) (JRef 1) JUndefined (JBool False)"
  have 1: "GetV demo_heap (JRef 0) ''get'' = Inr (JFun (Host_fn 0))"
    "Array_isArray demo_heap (JRef 1)"
    "GetV demo_heap (JRef 0) (if truthy (JBool True) then ''getWithMetadata'' else ''get'')
       = Inr (JFun (Host_fn 1))"
    by (simp_all add: demo_simps)
  have 2: "invoke demo_rt (Host_fn 1) demo_heap (JRef 0) (JRef 1)
             \<lparr>type = (if JStr ''xml'' = JUndefined then JStr ''text'' else JStr ''xml'')\<rparr>
           = (Fulfilled (JRef 9), ?h1)"
    by (simp add: demo_simps)
  have 3: "obj_at ?h1 9 = HMap ?es" "\<forall>k \<in> fst ` set ?es. typeof k = ''string''"
    "distinct (map fst ?es)" "length ?h1 = 10"
    by (simp_all add: demo_simps)
  have 4: "Object_fromEntries demo_rt ?h1 (JRef 9)
             = (Inr (JRef 10), ?h1 @ [HObject [(''a'', JRef 7), (''b'', JRef 8), (''c'', JNull)]])"
    by (simp add: demo_simps)
  have 5: "GetV demo_heap (JRef 5) ''get'' = Inr (JFun (Host_fn 2))"
    "GetV demo_heap (JRef 5) (if truthy (JBool False) then ''getWithMetadata'' else ''get'')
       = Inr (JFun (Host_fn 2))"
    "invoke demo_rt (Host_fn 2) demo_heap (JRef 5) (JRef 1)
       \<lparr>type = (if JUndefined = JUndefined then JStr ''text'' else JUndefined)\<rparr>
     = (Rejected (Error ''quota exceeded''), demo_heap)"
    by (simp_all add: demo_simps)
  have 6: "calls (kv_bulk_get demo_rt demo_heap (JRef 0) (JNum 3) (JStr ''xml'') (JBool True)) = []"
    by (simp add: demo_simps)
  note t1 = decode_format_forwarded
      [of demo_heap "JRef 0" "Host_fn 0" "JRef 1" "JBool True" "Host_fn 1" demo_rt
          "JStr ''xml''" 9 ?h1 ?es JUndefined]
  note t2 = decode_format_forwarded
      [of demo_heap "JRef 5" "Host_fn 2" "JRef 1" "JBool False" "Host_fn 2" demo_rt
          JUndefined 0 "[]" "[]" JUndefined]
  note t3 = decode_format_forwarded
      [of demo_heap "JRef 0" "Host_fn 0" "JNum 3" "JBool True" "Host_fn 1" demo_rt
          "JStr ''xml''" 0 "[]" "[]" "JNum 7"]
  from t1 1 2 3 have "outcome ?r = Fulfilled (JRef 10)"
    by simp
  moreover from t1 1 2 4 have "calls ?r =
      [\<lparr>member_name = ''getWithMetadata'', callee = Host_fn 1, this_arg = JRef 0,
         keys_arg = JRef 1, options_arg = \<lparr>type = JStr ''xml''\<rparr>\<rparr>]"
    "heap_after ?r = ?h1 @ [HObject [(''a'', JRef 7), (''b'', JRef 8), (''c'', JNull)]]"
    by simp_all
  ultimately have r: "?r =
     \<lparr>outcome = Fulfilled (JRef 10),
      heap_after = ?h1 @ [HObject [(''a'', JRef 7), (''b'', JRef 8), (''c'', JNull)]],
      calls = [\<lparr>member_name = ''getWithMetadata'', callee = Host_fn 1, this_arg = JRef 0,
                keys_arg = JRef 1, options_arg = \<lparr>type = JStr ''xml''\<rparr>\<rparr>]\<rparr>"
    by (cases ?r) simp
  from t2 1(2) 5 have "calls ?q =
      [\<lparr>member_name = ''get'', callee = Host_fn 2, this_arg = JRef 5,
         keys_arg = JRef 1, options_arg = \<lparr>type = JStr ''text''\<rparr>\<rparr>]"
    "outcome ?q = Rejected (Error ''quota exceeded'')" "heap_after ?q = demo_heap"
    by simp_all
  then have q: "?q =
     \<lparr>outcome = Rejected (Error ''quota exceeded''), heap_after = demo_heap,
      calls = [\<lparr>member_name = ''get'', callee = Host_fn 2, this_arg = JRef 5,
                keys_arg = JRef 1, options_arg = \<lparr>type = JStr ''text''\<rparr>\<rparr>]\<rparr>"
    by (cases ?q) simp
  from t3 6
  have "kv_bulk_get demo_rt demo_heap (JRef 0) (JNum 3) (JNum 7) (JBool True) =
       kv_bulk_get demo_rt demo_heap (JRef 0) (JNum 3) (JStr ''xml'') (JBool True)"
    by simp
  with r q 6 show ?thesis
    by simp
qed

end
